theory Spec2Isabelle
  imports Main "HOL-Library.Word"
begin

section \<open>The deposit instruction of the Solido client (js/src/instructions/deposit.ts)\<close>

text \<open>
  \<open>getDepositInstruction\<close> encodes the payload of a deposit with a buffer layout,
  derives two program addresses and lists the eight accounts of the instruction.
  The layout, the buffer and the public keys come from libraries
  (@solana/buffer-layout, Node's Buffer, @solana/web3.js, @solana/spl-token); the
  parts of them the function runs through are embedded here next to it.
\<close>

subsection \<open>Values\<close>

type_synonym byte = "8 word"

text \<open>A Buffer is a mutable byte array; every write returns the updated array.\<close>

type_synonym Buffer = "byte list"

text \<open>A PublicKey is held by the 32 bytes \<open>toBuffer\<close> returns.\<close>

type_synonym PublicKey = "byte list"

text \<open>
  What a JavaScript call can throw (an async function rejects with it). \<open>RangeError\<close>
  is what Buffer's writers throw, the spec's FieldOverflow; the other three are the
  spec's names.
\<close>

datatype error = RangeError | InvalidSeed | DerivationExhausted | MalformedPayload

text \<open>
  \<open>ProgramAddresses\<close> and \<open>Lamports\<close> are declared in ../types, which is not among the
  sources: the records have the fields deposit.ts reads.
\<close>

record ProgramAddresses =
  solidoProgramId :: PublicKey
  solidoInstanceId :: PublicKey
  stSolMintAddress :: PublicKey

text \<open>
  \<open>lamports\<close> is the integer amount the caller means, whether the field holds it as a
  number or as a big integer. The layout does arithmetic on it as a JavaScript number
  (see \<open>ToNumber\<close> below).
\<close>

record Lamports =
  lamports :: int

record AccountMeta =
  pubkey :: PublicKey
  isSigner :: bool
  isWritable :: bool

record TransactionInstruction =
  keys :: "AccountMeta list"
  data :: Buffer
  programId :: PublicKey

text \<open>
  \<open>TOKEN_PROGRAM_ID\<close> of @solana/spl-token is TokenkegQfeZyiNwAJbNbGKPFXCWuBvf9Ss623VQ5DA,
  \<open>SystemProgram.programId\<close> of @solana/web3.js is 11111111111111111111111111111111
  (base 58), here as their 32 bytes.
\<close>

definition TOKEN_PROGRAM_ID :: PublicKey where
  "TOKEN_PROGRAM_ID =
     [6, 221, 246, 225, 215, 101, 161, 147, 217, 203, 225, 70, 206, 235, 121, 172,
      28, 180, 133, 237, 95, 91, 55, 145, 58, 140, 245, 133, 126, 255, 0, 169]"

definition SystemProgram_programId :: PublicKey where
  "SystemProgram_programId = replicate 32 0"

subsection \<open>JavaScript numbers\<close>

text \<open>
  A JavaScript number is an IEEE 754 double: 53 significant bits. An integer that needs
  more is rounded to the nearest double, ties to the even significand, when it becomes a
  number (a numeric literal, \<open>Number(s)\<close>, the operand of \<open>/\<close> or \<open>-\<close>).
  \<open>excess_bits m\<close> is how many low bits \<open>m\<close> has beyond 53; \<open>round_nearest_even\<close>
  rounds them away. A value that is a double already is unchanged. (From 2^1024 on the
  double is Infinity; the model keeps a finite value there, which the range checks
  below refuse all the same.)
\<close>

fun excess_bits :: "nat \<Rightarrow> nat" where
  "excess_bits m = (if m < 2 ^ 53 then 0 else Suc (excess_bits (m div 2)))"

declare excess_bits.simps [simp del]

definition round_nearest_even :: "nat \<Rightarrow> nat" where
  "round_nearest_even m =
     (let s = excess_bits m; q = m div 2 ^ s; r = m mod 2 ^ s
      in if 2 ^ s < 2 * r \<or> (2 * r = 2 ^ s \<and> odd q) then (q + 1) * 2 ^ s else q * 2 ^ s)"

definition ToNumber :: "int \<Rightarrow> int" where
  "ToNumber v =
     (if v < 0 then - int (round_nearest_even (nat (- v))) else int (round_nearest_even (nat v)))"

subsection \<open>Buffer (Node)\<close>

text \<open>\<open>Buffer.alloc(n)\<close>: \<open>n\<close> zero bytes.\<close>

definition Buffer_alloc :: "nat \<Rightarrow> Buffer" where
  "Buffer_alloc n = replicate n 0"

text \<open>The \<open>n\<close> low bytes of \<open>v\<close>, least significant first.\<close>

fun le_bytes :: "nat \<Rightarrow> int \<Rightarrow> byte list" where
  "le_bytes 0 v = []"
| "le_bytes (Suc n) v = word_of_int v # le_bytes n (v div 256)"

definition buffer_set :: "Buffer \<Rightarrow> nat \<Rightarrow> byte list \<Rightarrow> Buffer" where
  "buffer_set b offset bs = take offset b @ bs @ drop (offset + length bs) b"

text \<open>
  \<open>buf.writeUIntLE(value, offset, byteLength)\<close> and \<open>buf.writeUInt32LE(value, offset)\<close>:
  \<^verbatim>\<open>
  if (value > max || value < min) throw new ERR_OUT_OF_RANGE('value', range, value);
  if (buf[offset] === undefined || buf[offset + byteLength - 1] === undefined) boundsError(...);
  buf[offset++] = value; value = value >>> 8; ...
  \<close>
  \<open>writeUIntLE\<close> first picks the writer for a \<open>byteLength\<close> from 1 to 6 and ends in
  \<open>boundsError(byteLength, 6, 'byteLength')\<close> for any other. All these errors are
  RangeErrors.
\<close>

definition writeUIntLE :: "Buffer \<Rightarrow> int \<Rightarrow> nat \<Rightarrow> nat \<Rightarrow> error + Buffer" where
  "writeUIntLE b v offset byteLength =
     (if byteLength < 1 \<or> 6 < byteLength then Inl RangeError
      else if v > 2 ^ (8 * byteLength) - 1 \<or> v < 0 then Inl RangeError
      else if length b < offset + byteLength then Inl RangeError
      else Inr (buffer_set b offset (le_bytes byteLength v)))"

definition writeUInt32LE :: "Buffer \<Rightarrow> int \<Rightarrow> nat \<Rightarrow> error + Buffer" where
  "writeUInt32LE b v offset =
     (if v > 4294967295 \<or> v < 0 then Inl RangeError
      else if length b < offset + 4 then Inl RangeError
      else Inr (buffer_set b offset (le_bytes 4 v)))"

subsection \<open>The layouts of @solana/buffer-layout\<close>

text \<open>
  \<open>u8(property)\<close> is \<open>new UInt(1, property)\<close>, \<open>nu64(property)\<close> is
  \<open>new NearUInt64(property)\<close>, of span 8.
\<close>

datatype Layout = UInt nat string | NearUInt64 string

fun span :: "Layout \<Rightarrow> nat" where
  "span (UInt n p) = n"
| "span (NearUInt64 p) = 8"

fun property :: "Layout \<Rightarrow> string" where
  "property (UInt n p) = p"
| "property (NearUInt64 p) = p"

definition u8 :: "string \<Rightarrow> Layout" where
  "u8 p = UInt 1 p"

definition nu64 :: "string \<Rightarrow> Layout" where
  "nu64 p = NearUInt64 p"

text \<open>
  \<^verbatim>\<open>
  const V2E32 = Math.pow(2, 32);
  function divmodInt64(src) {
    const hi32 = Math.floor(src / V2E32);
    const lo32 = src - (hi32 * V2E32);
    return {hi32, lo32};
  }
  \<close>
  \<open>src / V2E32\<close> and \<open>src - ...\<close> take \<open>src\<close> as a number. On a double that is an
  integer the division by a power of two, the floor, the product and the difference are
  all exact.
\<close>

definition V2E32 :: int where
  "V2E32 = 2 ^ 32"

definition divmodInt64 :: "int \<Rightarrow> int \<times> int" where
  "divmodInt64 src =
     (let x = ToNumber src;
          hi32 = x div V2E32;
          lo32 = x - hi32 * V2E32
      in (hi32, lo32))"

text \<open>
  \<^verbatim>\<open>
  UInt.encode(src, b, offset)       { b.writeUIntLE(src, offset, this.span); return this.span; }
  NearUInt64.encode(src, b, offset) { const split = divmodInt64(src);
                                      b.writeUInt32LE(split.lo32, offset);
                                      b.writeUInt32LE(split.hi32, offset + 4); return 8; }
  \<close>
\<close>

fun Layout_encode :: "Layout \<Rightarrow> int \<Rightarrow> Buffer \<Rightarrow> nat \<Rightarrow> error + Buffer" where
  "Layout_encode (UInt n p) src b offset = writeUIntLE b src offset n"
| "Layout_encode (NearUInt64 p) src b offset =
     (case divmodInt64 src of (hi32, lo32) \<Rightarrow>
        (case writeUInt32LE b lo32 offset of
           Inl e \<Rightarrow> Inl e
         | Inr b' \<Rightarrow> writeUInt32LE b' hi32 (offset + 4)))"

text \<open>
  \<open>struct(fields)\<close>: its span is the sum of the fields' spans; \<open>encode\<close> writes each
  field whose property the source object defines, one after the other:
  \<^verbatim>\<open>
  for (const fd of this.fields) {
    let span = fd.span;
    if (undefined !== fd.property) {
      const fv = src[fd.property];
      if (undefined !== fv) { lastWrote = fd.encode(fv, b, offset); }
    }
    offset += span;
  }
  \<close>
\<close>

type_synonym Structure = "Layout list"

definition struct :: "Layout list \<Rightarrow> Structure" where
  "struct fds = fds"

definition Structure_span :: "Structure \<Rightarrow> nat" where
  "Structure_span fds = sum_list (map span fds)"

fun Structure_encode :: "Structure \<Rightarrow> (string \<rightharpoonup> int) \<Rightarrow> Buffer \<Rightarrow> nat \<Rightarrow> error + Buffer" where
  "Structure_encode [] src b offset = Inr b"
| "Structure_encode (fd # fds) src b offset =
     (case src (property fd) of
        None \<Rightarrow> Structure_encode fds src b (offset + span fd)
      | Some fv \<Rightarrow>
          (case Layout_encode fd fv b offset of
             Inl e \<Rightarrow> Inl e
           | Inr b' \<Rightarrow> Structure_encode fds src b' (offset + span fd)))"

subsection \<open>Address derivation\<close>

text \<open>
  Modelled from the spec: \<open>findAuthorityProgramAddress\<close> is defined in ../utils, which is
  not among the sources; deposit.ts awaits it twice and uses each result as a public key.
  The spec (4.2) gives the derivation it stands for: over hash and curve-membership
  primitives that are injected (9), for bump candidate b from 255 down to 0 compute
  hash(seeds ++ [b] ++ program_id ++ domain_tag) and accept the first candidate that is
  not a point on the curve, returning (address, b); fail with DerivationExhausted when no
  bump is accepted; fail with InvalidSeed, before any hashing, for a seed longer than 32
  bytes or more seeds than the implementation's maximum. The spec fixes neither the
  primitives, the domain tag, the maximal seed count nor the seed sequence the helper
  passes for a role: they are the fields of \<open>engine\<close>.
\<close>

record engine =
  hash :: "byte list \<Rightarrow> byte list"
  isOnCurve :: "byte list \<Rightarrow> bool"
  domain_tag :: "byte list"
  max_seeds :: nat
  authority_seeds :: "ProgramAddresses \<Rightarrow> string \<Rightarrow> byte list list"

definition candidate :: "engine \<Rightarrow> PublicKey \<Rightarrow> byte list list \<Rightarrow> nat \<Rightarrow> PublicKey" where
  "candidate E program_id seeds b =
     hash E (concat seeds @ [of_nat b] @ program_id @ domain_tag E)"

text \<open>The loop over the bump candidates \<open>b\<close>, \<open>b - 1\<close>, ..., 0.\<close>

fun search :: "engine \<Rightarrow> PublicKey \<Rightarrow> byte list list \<Rightarrow> nat \<Rightarrow> error + PublicKey \<times> nat" where
  "search E program_id seeds 0 =
     (if \<not> isOnCurve E (candidate E program_id seeds 0)
      then Inr (candidate E program_id seeds 0, 0)
      else Inl DerivationExhausted)"
| "search E program_id seeds (Suc b) =
     (if \<not> isOnCurve E (candidate E program_id seeds (Suc b))
      then Inr (candidate E program_id seeds (Suc b), Suc b)
      else search E program_id seeds b)"

definition invalid_seeds :: "engine \<Rightarrow> byte list list \<Rightarrow> bool" where
  "invalid_seeds E seeds = (max_seeds E < length seeds \<or> list_ex (\<lambda>s. 32 < length s) seeds)"

definition derive :: "engine \<Rightarrow> PublicKey \<Rightarrow> byte list list \<Rightarrow> error + PublicKey \<times> nat" where
  "derive E program_id seeds =
     (if invalid_seeds E seeds then Inl InvalidSeed else search E program_id seeds 255)"

text \<open>The helper resolves to the address and drops the bump.\<close>

definition findAuthorityProgramAddress :: "engine \<Rightarrow> ProgramAddresses \<Rightarrow> string \<Rightarrow> error + PublicKey" where
  "findAuthorityProgramAddress E programAddresses additionalSeedString =
     (case derive E (solidoProgramId programAddresses)
             (authority_seeds E programAddresses additionalSeedString) of
        Inl e \<Rightarrow> Inl e
      | Inr (address, bump) \<Rightarrow> Inr address)"

subsection \<open>getDepositInstruction\<close>

text \<open>Lines 17 to 23: the layout, the zeroed buffer of its span, the encoding into it.\<close>

definition dataLayout :: Structure where
  "dataLayout = struct [u8 ''instruction'', nu64 ''amount'']"

definition depositData :: "Lamports \<Rightarrow> error + Buffer" where
  "depositData amount =
     (let data = Buffer_alloc (Structure_span dataLayout)
      in Structure_encode dataLayout [''instruction'' \<mapsto> 1, ''amount'' \<mapsto> lamports amount] data 0)"

text \<open>
  The function in the order it runs: the encoding, the two derivations, the account list.
  A throw or a rejected await leaves the function with that error.
\<close>

definition getDepositInstruction ::
  "engine \<Rightarrow> PublicKey \<Rightarrow> PublicKey \<Rightarrow> ProgramAddresses \<Rightarrow> Lamports \<Rightarrow> error + TransactionInstruction" where
  "getDepositInstruction E senderAddress recipientStSolAddress programAddresses amount =
     (case depositData amount of
        Inl e \<Rightarrow> Inl e
      | Inr encoded \<Rightarrow>
     (case findAuthorityProgramAddress E programAddresses ''reserve_account'' of
        Inl e \<Rightarrow> Inl e
      | Inr reserveAccountAddress \<Rightarrow>
     (case findAuthorityProgramAddress E programAddresses ''mint_authority'' of
        Inl e \<Rightarrow> Inl e
      | Inr mintAuthorityAddress \<Rightarrow>
          Inr \<lparr>keys =
                [\<lparr>pubkey = solidoInstanceId programAddresses, isSigner = False, isWritable = True\<rparr>,
                 \<lparr>pubkey = senderAddress, isSigner = True, isWritable = True\<rparr>,
                 \<lparr>pubkey = recipientStSolAddress, isSigner = False, isWritable = True\<rparr>,
                 \<lparr>pubkey = stSolMintAddress programAddresses, isSigner = False, isWritable = True\<rparr>,
                 \<lparr>pubkey = reserveAccountAddress, isSigner = False, isWritable = True\<rparr>,
                 \<lparr>pubkey = mintAuthorityAddress, isSigner = False, isWritable = False\<rparr>,
                 \<lparr>pubkey = TOKEN_PROGRAM_ID, isSigner = False, isWritable = False\<rparr>,
                 \<lparr>pubkey = SystemProgram_programId, isSigner = False, isWritable = False\<rparr>],
               data = encoded,
               programId = solidoProgramId programAddresses\<rparr>)))"

subsection \<open>The codec\<close>

text \<open>The unsigned integer a run of bytes holds, least significant byte first.\<close>

fun le_value :: "byte list \<Rightarrow> int" where
  "le_value [] = 0"
| "le_value (b # bs) = uint b + 256 * le_value bs"

text \<open>
  The instruction kinds in scope and their discriminants. \<open>encode\<close> is what lines 17 to 23
  do for a kind: the discriminant and the amount through \<open>dataLayout\<close>.
\<close>

datatype kind = Deposit

fun discriminant :: "kind \<Rightarrow> int" where
  "discriminant Deposit = 1"

definition encode :: "kind \<Rightarrow> int \<Rightarrow> error + Buffer" where
  "encode k amount = (case k of Deposit \<Rightarrow> depositData \<lparr>lamports = amount\<rparr>)"

text \<open>
  Modelled from the spec: the repository has no decoder, deposit.ts only encodes. The spec
  (4.1) asks for \<open>decode(bytes) -> (kind, fields)\<close> over the same layout, a discriminant
  byte followed by the little-endian fixed-width fields with no padding, failing with
  MalformedPayload when the discriminant is unrecognized or the length does not match the
  kind's expected length.
\<close>

definition decode :: "Buffer \<Rightarrow> error + kind \<times> int" where
  "decode b =
     (case b of
        [] \<Rightarrow> Inl MalformedPayload
      | d # rest \<Rightarrow>
          if uint d \<noteq> discriminant Deposit then Inl MalformedPayload
          else if length b \<noteq> 9 then Inl MalformedPayload
          else Inr (Deposit, le_value rest))"

subsection \<open>A concrete deployment\<close>

text \<open>
  An engine and a set of program addresses on which the functions above can be run: the
  hash returns its input, a candidate counts as on the curve when its first byte is 254
  or 255, and the seeds of a role are the instance identifier and the role's string.
\<close>

definition E0 :: engine where
  "E0 = \<lparr>hash = (\<lambda>bs. bs), isOnCurve = (\<lambda>a. 253 < hd a), domain_tag = [80, 68, 65],
         max_seeds = 16,
         authority_seeds = (\<lambda>P seed. [solidoInstanceId P, map (\<lambda>c. of_nat (of_char c)) seed])\<rparr>"

definition P0 :: ProgramAddresses where
  "P0 = \<lparr>solidoProgramId = [1], solidoInstanceId = [2], stSolMintAddress = [3]\<rparr>"

section \<open>Properties\<close>

subsection \<open>Rounding to a JavaScript number\<close>

text \<open>
  Below 2^53 nothing is rounded. From there on \<open>excess_bits\<close> is the exponent that leaves
  53 significant bits, the rounded value lies between 2^52 and 2^53 times that power of
  two, and rounding a rounded value changes nothing: a value that is a number already
  passes through \<open>ToNumber\<close> as it is.
\<close>

lemma excess_bits_small: "m < 2 ^ 53 \<Longrightarrow> excess_bits m = 0"
  by (simp add: excess_bits.simps)

lemma round_nearest_even_small: "m < 2 ^ 53 \<Longrightarrow> round_nearest_even m = m"
  by (simp add: round_nearest_even_def excess_bits_small)

lemma ToNumber_safe: "0 \<le> v \<Longrightarrow> v < 2 ^ 53 \<Longrightarrow> ToNumber v = v"
proof -
  assume a: "0 \<le> v" "v < 2 ^ 53"
  then have "nat v < 2 ^ 53" by (simp add: nat_less_iff)
  then show ?thesis using a by (simp add: ToNumber_def round_nearest_even_small)
qed

lemma excess_bits_bounds:
  "2 ^ 53 \<le> m \<Longrightarrow> 2 ^ 52 * 2 ^ excess_bits m \<le> m \<and> m < 2 ^ 53 * 2 ^ excess_bits m"
proof (induction m rule: excess_bits.induct)
  case (1 m)
  show ?case
  proof (cases "m div 2 < 2 ^ 53")
    case True
    then have "excess_bits (m div 2) = 0" by (rule excess_bits_small)
    with "1.prems" have "excess_bits m = 1" by (simp add: excess_bits.simps [of m])
    with True "1.prems" show ?thesis by simp
  next
    case False
    then have ih: "2 ^ 52 * 2 ^ excess_bits (m div 2) \<le> m div 2 \<and>
        m div 2 < 2 ^ 53 * 2 ^ excess_bits (m div 2)"
      using "1.IH" "1.prems" by simp
    have e: "excess_bits m = Suc (excess_bits (m div 2))"
      using "1.prems" by (simp add: excess_bits.simps [of m])
    show ?thesis unfolding e using ih by simp linarith
  qed
qed

lemma excess_bits_eq:
  "2 ^ 52 * 2 ^ s \<le> m \<Longrightarrow> m < 2 ^ 53 * 2 ^ s \<Longrightarrow> excess_bits m = s"
proof (induction s arbitrary: m)
  case 0
  then show ?case by (simp add: excess_bits_small)
next
  case (Suc s)
  have "(1::nat) \<le> 2 ^ s" by simp
  then have "(2::nat) ^ 53 \<le> 2 ^ 52 * 2 ^ Suc s" by simp
  with Suc.prems have "\<not> m < 2 ^ 53" by linarith
  then have e: "excess_bits m = Suc (excess_bits (m div 2))"
    by (simp add: excess_bits.simps [of m])
  define k :: nat where "k = 2 ^ s"
  have k: "(2::nat) ^ Suc s = 2 * k" by (simp add: k_def)
  have "4503599627370496 * k \<le> m div 2" "m div 2 < 9007199254740992 * k"
    using Suc.prems unfolding k by simp_all
  then have "excess_bits (m div 2) = s"
    unfolding k_def by (intro Suc.IH) simp_all
  with e show ?case by simp
qed

lemma round_nearest_even_lower:
  assumes "2 ^ 53 \<le> m"
  shows "2 ^ 52 * 2 ^ excess_bits m \<le> round_nearest_even m"
proof -
  define s where "s = excess_bits m"
  have "2 ^ 52 * 2 ^ s \<le> m" using excess_bits_bounds [OF assms] by (simp add: s_def)
  then have "(2 ^ 52 * 2 ^ s) div 2 ^ s \<le> m div 2 ^ s" by (rule div_le_mono)
  then have q: "2 ^ 52 \<le> m div 2 ^ s" by simp
  then have "2 ^ 52 * 2 ^ s \<le> m div 2 ^ s * 2 ^ s" by (rule mult_le_mono1)
  moreover have "m div 2 ^ s * 2 ^ s \<le> round_nearest_even m"
    by (simp add: round_nearest_even_def Let_def s_def)
  ultimately show ?thesis unfolding s_def by linarith
qed

lemma round_nearest_even_upper:
  assumes "2 ^ 53 \<le> m"
  shows "round_nearest_even m \<le> 2 ^ 53 * 2 ^ excess_bits m"
proof -
  define s where "s = excess_bits m"
  have "m < 2 ^ 53 * 2 ^ s" using excess_bits_bounds [OF assms] by (simp add: s_def)
  then have "m div 2 ^ s < 2 ^ 53" by (simp add: less_mult_imp_div_less)
  then have "m div 2 ^ s + 1 \<le> 2 ^ 53" by simp
  then have "(m div 2 ^ s + 1) * 2 ^ s \<le> 2 ^ 53 * 2 ^ s" by (rule mult_le_mono1)
  moreover have "round_nearest_even m \<le> (m div 2 ^ s + 1) * 2 ^ s"
    by (simp add: round_nearest_even_def Let_def s_def)
  ultimately show ?thesis unfolding s_def by linarith
qed

lemma round_nearest_even_pos: "0 < m \<Longrightarrow> 0 < round_nearest_even m"
proof (cases "m < 2 ^ 53")
  case True
  assume "0 < m"
  with True show ?thesis by (simp add: round_nearest_even_small)
next
  case False
  then have "2 ^ 52 * 2 ^ excess_bits m \<le> round_nearest_even m"
    by (intro round_nearest_even_lower) simp
  moreover have "(0::nat) < 2 ^ 52 * 2 ^ excess_bits m" by simp
  ultimately show ?thesis by linarith
qed

lemma round_nearest_even_ge_2_64:
  assumes "2 ^ 64 \<le> m"
  shows "2 ^ 64 \<le> round_nearest_even m"
proof -
  have m: "2 ^ 53 \<le> m" using assms by simp
  have "m < 2 ^ 53 * 2 ^ excess_bits m" using excess_bits_bounds [OF m] by simp
  with assms have "(2::nat) ^ 64 < 2 ^ (53 + excess_bits m)" by (simp add: power_add)
  then have "64 < 53 + excess_bits m" by (rule power_less_imp_less_exp [rotated]) simp
  then have "64 \<le> 52 + excess_bits m" by simp
  then have "(2::nat) ^ 64 \<le> 2 ^ (52 + excess_bits m)" by (intro power_increasing) simp_all
  then have "(2::nat) ^ 64 \<le> 2 ^ 52 * 2 ^ excess_bits m" by (simp add: power_add)
  with round_nearest_even_lower [OF m] show ?thesis by linarith
qed

lemma round_nearest_even_11:
  "excess_bits m = 11 \<Longrightarrow> round_nearest_even m =
     (if 2048 < 2 * (m mod 2048) \<or> 2 * (m mod 2048) = 2048 \<and> odd (m div 2048)
      then (m div 2048 + 1) * 2048 else m div 2048 * 2048)"
  by (simp add: round_nearest_even_def Let_def)

lemma round_nearest_even_boundary:
  assumes "2 ^ 64 - 1024 \<le> m" and "m < 2 ^ 64"
  shows "round_nearest_even m = 2 ^ 64"
proof -
  have e: "excess_bits m = 11" using assms by (intro excess_bits_eq) simp_all
  define Q R where "Q = m div 2048" and "R = m mod 2048"
  have dm: "m = Q * 2048 + R" and rb: "R < 2048" by (simp_all add: Q_def R_def)
  have a: "18446744073709550592 \<le> m" "m < 18446744073709551616" using assms by simp_all
  have q: "Q = 9007199254740991" using dm rb a by linarith
  have r: "1024 \<le> R" using dm q a by linarith
  have "(if 2048 < 2 * R \<or> 2 * R = 2048 \<and> odd Q then (Q + 1) * 2048 else Q * 2048) =
      2 ^ 64"
    using r by (simp add: q)
  then show ?thesis
    unfolding round_nearest_even_11 [OF e] Q_def [symmetric] R_def [symmetric] .
qed

lemma round_nearest_even_below:
  assumes "m \<le> 2 ^ 64 - 1025"
  shows "round_nearest_even m < 2 ^ 64"
proof (cases "m < 2 ^ 53")
  case True
  then show ?thesis by (simp add: round_nearest_even_small)
next
  case False
  then have m: "2 ^ 53 \<le> m" by simp
  show ?thesis
  proof (cases "m < 2 ^ 63")
    case True
    have "2 ^ 52 * 2 ^ excess_bits m \<le> m" using excess_bits_bounds [OF m] by simp
    with True have "(2::nat) ^ (52 + excess_bits m) < 2 ^ 63" by (simp add: power_add)
    then have "52 + excess_bits m < 63" by (rule power_less_imp_less_exp [rotated]) simp
    then have "53 + excess_bits m \<le> 63" by simp
    then have "(2::nat) ^ (53 + excess_bits m) \<le> 2 ^ 63" by (intro power_increasing) simp_all
    then have "(2::nat) ^ 53 * 2 ^ excess_bits m \<le> 2 ^ 63" by (simp add: power_add)
    with round_nearest_even_upper [OF m] show ?thesis by simp
  next
    case False
    then have e: "excess_bits m = 11" using assms by (intro excess_bits_eq) simp_all
    define Q R where "Q = m div 2048" and "R = m mod 2048"
    have dm: "m = Q * 2048 + R" and rb: "R < 2048" by (simp_all add: Q_def R_def)
    have a: "m \<le> 18446744073709550591" using assms by simp
    have q: "Q \<le> 9007199254740991" using dm a by linarith
    have r: "Q = 9007199254740991 \<Longrightarrow> R < 1024" using dm a by linarith
    have "(if 2048 < 2 * R \<or> 2 * R = 2048 \<and> odd Q then (Q + 1) * 2048 else Q * 2048) <
        2 ^ 64"
    proof (cases "Q = 9007199254740991")
      case True
      with r show ?thesis by simp
    next
      case False
      with q have "Q + 1 \<le> 9007199254740991" by simp
      then have "(Q + 1) * 2048 \<le> 9007199254740991 * 2048" by (rule mult_le_mono1)
      then show ?thesis by simp
    qed
    then show ?thesis
      unfolding round_nearest_even_11 [OF e] Q_def [symmetric] R_def [symmetric] .
  qed
qed

lemma round_nearest_even_multiple:
  assumes "2 ^ 52 \<le> q" and "q < 2 ^ 53"
  shows "round_nearest_even (q * 2 ^ s) = q * 2 ^ s"
proof -
  have "2 ^ 52 * 2 ^ s \<le> q * 2 ^ s" using assms(1) by (rule mult_le_mono1)
  moreover have "q * 2 ^ s < 2 ^ 53 * 2 ^ s" using assms(2) by simp
  ultimately have e: "excess_bits (q * 2 ^ s) = s" by (rule excess_bits_eq)
  show ?thesis unfolding round_nearest_even_def e Let_def by simp
qed

lemma round_nearest_even_idem: "round_nearest_even (round_nearest_even m) = round_nearest_even m"
proof (cases "m < 2 ^ 53")
  case True
  then show ?thesis by (simp add: round_nearest_even_small)
next
  case False
  then have m: "2 ^ 53 \<le> m" by simp
  define s where "s = excess_bits m"
  define q where "q = m div 2 ^ s"
  have b: "2 ^ 52 * 2 ^ s \<le> m" "m < 2 ^ 53 * 2 ^ s"
    using excess_bits_bounds [OF m] by (simp_all add: s_def)
  from b(1) have "(2 ^ 52 * 2 ^ s) div 2 ^ s \<le> m div 2 ^ s" by (rule div_le_mono)
  then have q1: "2 ^ 52 \<le> q" by (simp add: q_def)
  from b(2) have q2: "q < 2 ^ 53" by (simp add: q_def less_mult_imp_div_less)
  have r: "round_nearest_even m = q * 2 ^ s \<or> round_nearest_even m = (q + 1) * 2 ^ s"
    by (simp add: round_nearest_even_def Let_def s_def q_def)
  show ?thesis
  proof (cases "round_nearest_even m = q * 2 ^ s")
    case True
    then show ?thesis using round_nearest_even_multiple [OF q1 q2] by simp
  next
    case False
    with r have u: "round_nearest_even m = (q + 1) * 2 ^ s" by simp
    show ?thesis
    proof (cases "q + 1 < 2 ^ 53")
      case True
      have "2 ^ 52 \<le> q + 1" using q1 by simp
      from round_nearest_even_multiple [OF this True] u show ?thesis by simp
    next
      case False
      with q2 have "q + 1 = 2 ^ 52 * 2" by simp
      then have "(q + 1) * 2 ^ s = 2 ^ 52 * 2 ^ Suc s" by simp
      moreover have "round_nearest_even (2 ^ 52 * 2 ^ Suc s) = 2 ^ 52 * 2 ^ Suc s"
        by (rule round_nearest_even_multiple) simp_all
      ultimately show ?thesis using u by simp
    qed
  qed
qed

lemma ToNumber_idem: "ToNumber (ToNumber v) = ToNumber v"
proof (cases "v < 0")
  case True
  then have "0 < round_nearest_even (nat (- v))" by (intro round_nearest_even_pos) simp
  then show ?thesis using True by (simp add: ToNumber_def round_nearest_even_idem)
next
  case False
  then show ?thesis by (simp add: ToNumber_def round_nearest_even_idem)
qed

lemma ToNumber_neg: "v < 0 \<Longrightarrow> ToNumber v < 0"
  using round_nearest_even_pos [of "nat (- v)"] by (simp add: ToNumber_def)

lemma ToNumber_overflow:
  assumes "2 ^ 64 - 1024 \<le> v"
  shows "2 ^ 64 \<le> ToNumber v"
proof -
  have v: "0 \<le> v" using assms by simp
  have "2 ^ 64 \<le> round_nearest_even (nat v)"
  proof (cases "nat v < 2 ^ 64")
    case True
    have "2 ^ 64 - 1024 \<le> nat v" using assms by simp
    then show ?thesis using True by (simp add: round_nearest_even_boundary)
  next
    case False
    then show ?thesis by (intro round_nearest_even_ge_2_64) simp
  qed
  then have "int (2 ^ 64) \<le> int (round_nearest_even (nat v))" by (simp only: of_nat_le_iff)
  then show ?thesis using v by (simp add: ToNumber_def)
qed

lemma ToNumber_in_range:
  assumes "0 \<le> v" and "v \<le> 2 ^ 64 - 1025"
  shows "0 \<le> ToNumber v \<and> ToNumber v < 2 ^ 64"
proof -
  have "nat v \<le> 2 ^ 64 - 1025" using assms by simp
  then have "round_nearest_even (nat v) < 2 ^ 64" by (rule round_nearest_even_below)
  then have "int (round_nearest_even (nat v)) < int (2 ^ 64)" by (simp only: of_nat_less_iff)
  then show ?thesis using assms by (simp add: ToNumber_def)
qed

lemma ToNumber_2_64_m1: "ToNumber (2 ^ 64 - 1) = 2 ^ 64"
proof -
  have "round_nearest_even (nat (2 ^ 64 - 1)) = 2 ^ 64"
    by (rule round_nearest_even_boundary) simp_all
  then show ?thesis by (simp add: ToNumber_def)
qed

lemma ToNumber_2_53_p1: "ToNumber (2 ^ 53 + 1) = 2 ^ 53"
proof -
  have e: "excess_bits 9007199254740993 = 1" by (rule excess_bits_eq) simp_all
  have "round_nearest_even 9007199254740993 = 9007199254740992"
    unfolding round_nearest_even_def e Let_def by simp
  then show ?thesis by (simp add: ToNumber_def)
qed

subsection \<open>The encoded payload\<close>

text \<open>
  The payload in closed form: the encoding fails exactly when the amount, as a number, is
  negative or at least 2^64; otherwise it is the byte 1 followed by the two 32-bit halves
  of the number, low half first, each little-endian.
\<close>

lemma Structure_span_dataLayout: "Structure_span dataLayout = 9"
  by (simp add: Structure_span_def dataLayout_def struct_def u8_def nu64_def)

lemma divmodInt64_eq: "divmodInt64 src = (ToNumber src div 2 ^ 32, ToNumber src mod 2 ^ 32)"
  by (simp add: divmodInt64_def Let_def V2E32_def minus_div_mult_eq_mod)

lemma length_le_bytes: "length (le_bytes n v) = n"
  by (induction n arbitrary: v) simp_all

lemma le_bytes_4:
  "le_bytes 4 v = [word_of_int v, word_of_int (v div 256), word_of_int (v div 256 div 256),
     word_of_int (v div 256 div 256 div 256)]"
  by (simp add: eval_nat_numeral)

lemma hi32_range:
  fixes x :: int
  shows "(4294967295 < x div 2 ^ 32 \<or> x div 2 ^ 32 < 0) = (x < 0 \<or> 2 ^ 64 \<le> x)"
proof -
  have hi1: "(x div 4294967296 < 0) = (x < 0)"
    by (simp add: pos_imp_zdiv_neg_iff)
  have hi2: "(4294967295 < x div 4294967296) = (18446744073709551616 \<le> x)"
    by linarith
  show ?thesis using hi1 hi2 by auto
qed

lemma nu64_encode_eq:
  assumes "length b = 9"
  shows "Layout_encode (NearUInt64 p) src b 1 =
     (if ToNumber src < 0 \<or> 2 ^ 64 \<le> ToNumber src then Inl RangeError
      else Inr (take 1 b @ le_bytes 4 (ToNumber src mod 2 ^ 32) @ le_bytes 4 (ToNumber src div 2 ^ 32)))"
proof -
  define x where "x = ToNumber src"
  have p32: "(2::int) ^ 32 = 4294967296" by simp
  have "x mod 4294967296 < 4294967296" "0 \<le> x mod 4294967296" by simp_all
  then have lor: "\<not> (4294967295 < x mod 2 ^ 32 \<or> x mod 2 ^ 32 < 0)"
    unfolding p32 by linarith
  have w1: "writeUInt32LE b (x mod 2 ^ 32) 1 = Inr (take 1 b @ le_bytes 4 (x mod 2 ^ 32) @ drop 5 b)"
    unfolding writeUInt32LE_def buffer_set_def using lor assms
    by (simp only: if_False length_le_bytes) simp
  have w2: "writeUInt32LE (take 1 b @ le_bytes 4 (x mod 2 ^ 32) @ drop 5 b) (x div 2 ^ 32) (1 + 4) =
      (if x < 0 \<or> 2 ^ 64 \<le> x then Inl RangeError
       else Inr (take 1 b @ le_bytes 4 (x mod 2 ^ 32) @ le_bytes 4 (x div 2 ^ 32)))"
    unfolding writeUInt32LE_def buffer_set_def hi32_range using assms
    by (simp add: length_le_bytes)
  show ?thesis
    unfolding x_def[symmetric] by (simp only: Layout_encode.simps divmodInt64_eq x_def[symmetric] prod.case w1 sum.case w2)
qed

lemma layout_fields:
  "span (u8 p) = 1" "property (u8 p) = p" "span (nu64 p) = 8" "property (nu64 p) = p"
  by (simp_all add: u8_def nu64_def)

lemma depositData_eq:
  "depositData amount =
     (if ToNumber (lamports amount) < 0 \<or> 2 ^ 64 \<le> ToNumber (lamports amount) then Inl RangeError
      else Inr (1 # le_bytes 4 (ToNumber (lamports amount) mod 2 ^ 32) @
                    le_bytes 4 (ToNumber (lamports amount) div 2 ^ 32)))"
proof -
  define src where "src = [''instruction'' \<mapsto> 1, ''amount'' \<mapsto> lamports amount]"
  have l: "src ''instruction'' = Some 1" "src ''amount'' = Some (lamports amount)"
    by (simp_all add: src_def)
  have u: "Layout_encode (u8 ''instruction'') 1 (replicate 9 0) 0 = Inr (1 # replicate 8 0)"
    by (simp add: u8_def writeUIntLE_def buffer_set_def eval_nat_numeral)
  have n: "Layout_encode (nu64 ''amount'') v (1 # replicate 8 0) 1 =
      (if ToNumber v < 0 \<or> 2 ^ 64 \<le> ToNumber v then Inl RangeError
      else Inr (1 # le_bytes 4 (ToNumber v mod 2 ^ 32) @ le_bytes 4 (ToNumber v div 2 ^ 32)))" for v
    unfolding nu64_def by (subst nu64_encode_eq) simp_all
  have "Structure_encode [u8 ''instruction'', nu64 ''amount''] src (replicate 9 0) 0 =
      (if ToNumber (lamports amount) < 0 \<or> 2 ^ 64 \<le> ToNumber (lamports amount) then Inl RangeError
      else Inr (1 # le_bytes 4 (ToNumber (lamports amount) mod 2 ^ 32) @
                    le_bytes 4 (ToNumber (lamports amount) div 2 ^ 32)))"
    by (simp only: Structure_encode.simps layout_fields l option.case u sum.case add_0 n
        if_distrib [of "case_sum Inl _"] cong: if_cong)
  then show ?thesis
    unfolding depositData_def Let_def Structure_span_dataLayout
    unfolding dataLayout_def struct_def Buffer_alloc_def src_def .
qed

lemma depositData_length: "depositData a = Inr d \<Longrightarrow> length d = 9"
  by (auto simp: depositData_eq length_le_bytes split: if_splits)

lemma depositData_overflow:
  "ToNumber (lamports a) < 0 \<or> 2 ^ 64 \<le> ToNumber (lamports a) \<Longrightarrow>
     depositData a = Inl RangeError"
  by (simp add: depositData_eq)

lemma le_value_le_bytes: "le_value (le_bytes n v) = v mod 2 ^ (8 * n)"
proof (induction n arbitrary: v)
  case 0
  show ?case by simp
next
  case (Suc n)
  have "v mod (256 * 2 ^ (8 * n)) = 256 * (v div 256 mod 2 ^ (8 * n)) + v mod 256"
    by (rule zmod_zmult2_eq) simp
  then show ?case
    by (simp add: Suc.IH uint_word_of_int_eq take_bit_eq_mod power_add)
qed

lemma le_value_append: "le_value (xs @ ys) = le_value xs + 256 ^ length xs * le_value ys"
  by (induction xs) (simp_all add: algebra_simps)

lemma depositData_field:
  assumes "0 \<le> ToNumber (lamports a)" and "ToNumber (lamports a) < 2 ^ 64"
  shows "\<exists>field. depositData a = Inr (1 # field) \<and> length field = 8 \<and>
           le_value field = ToNumber (lamports a)"
proof -
  define x where "x = ToNumber (lamports a)"
  define field where "field = le_bytes 4 (x mod 2 ^ 32) @ le_bytes 4 (x div 2 ^ 32)"
  have d: "depositData a = Inr (1 # field)"
    using assms by (simp add: depositData_eq field_def x_def)
  have hi: "x div 2 ^ 32 mod 2 ^ 32 = x div 2 ^ 32"
    using assms unfolding x_def [symmetric] by (intro mod_pos_pos_trivial) simp_all
  have "le_value field = x mod 2 ^ 32 + 2 ^ 32 * (x div 2 ^ 32)"
    using hi by (simp add: field_def le_value_append le_value_le_bytes length_le_bytes)
  then have "le_value field = x" by (simp add: mult_div_mod_eq)
  with d show ?thesis by (auto simp: field_def length_le_bytes x_def)
qed

lemma depositData_million: "depositData \<lparr>lamports = 1000000\<rparr> = Inr [1, 64, 66, 15, 0, 0, 0, 0, 0]"
proof -
  have "ToNumber 1000000 = 1000000" by (rule ToNumber_safe) simp_all
  then show ?thesis by (simp add: depositData_eq le_bytes_4)
qed

lemma depositData_five: "depositData \<lparr>lamports = 5\<rparr> = Inr [1, 5, 0, 0, 0, 0, 0, 0, 0]"
proof -
  have "ToNumber 5 = 5" by (rule ToNumber_safe) simp_all
  then show ?thesis by (simp add: depositData_eq le_bytes_4)
qed

lemma depositData_minus_one: "depositData \<lparr>lamports = - 1\<rparr> = Inl RangeError"
  by (rule depositData_overflow) (simp add: ToNumber_neg)

lemma depositData_2_53_p1:
  "depositData \<lparr>lamports = 2 ^ 53 + 1\<rparr> = Inr [1, 0, 0, 0, 0, 0, 0, 32, 0]"
  using ToNumber_2_53_p1 by (simp add: depositData_eq le_bytes_4)

subsection \<open>The bump search\<close>

lemma search_accept:
  "\<not> isOnCurve E (candidate E p s b) \<Longrightarrow> search E p s b = Inr (candidate E p s b, b)"
  by (cases b) simp_all

lemma search_lower:
  "isOnCurve E (candidate E p s (Suc b)) \<Longrightarrow> search E p s (Suc b) = search E p s b"
  by simp

lemma search_255:
  "search E p s 255 =
     (if \<not> isOnCurve E (candidate E p s 255) then Inr (candidate E p s 255, 255)
      else if \<not> isOnCurve E (candidate E p s 254) then Inr (candidate E p s 254, 254)
      else search E p s 253)"
proof -
  have a: "(255::nat) = Suc 254" and b: "(254::nat) = Suc 253" by simp_all
  show ?thesis by (subst a, subst search.simps(2), subst b, subst search.simps(2)) (simp only: a[symmetric] b[symmetric])
qed

lemma search_Inr:
  "search E p s n = Inr (a, b) \<Longrightarrow>
     b \<le> n \<and> a = candidate E p s b \<and> \<not> isOnCurve E a \<and>
     (\<forall>b'. b < b' \<and> b' \<le> n \<longrightarrow> isOnCurve E (candidate E p s b'))"
proof (induction n)
  case 0
  then show ?case by (auto split: if_splits)
next
  case (Suc n)
  show ?case
  proof (cases "isOnCurve E (candidate E p s (Suc n))")
    case True
    with Suc.prems have "search E p s n = Inr (a, b)" by simp
    from Suc.IH [OF this] True show ?thesis by (auto simp: le_Suc_eq)
  next
    case False
    with Suc.prems show ?thesis by auto
  qed
qed

lemma derive_E0: "derive E0 [1] [] = Inr ([253, 1, 80, 68, 65], 253)"
proof -
  have "search E0 [1] [] 253 = Inr ([253, 1, 80, 68, 65], 253)"
    by (subst search_accept) (simp_all add: candidate_def E0_def)
  then show ?thesis
    by (simp add: derive_def invalid_seeds_def search_255) (simp add: candidate_def E0_def)
qed

subsection \<open>The assembled instruction\<close>

lemma getDepositInstruction_Inr:
  "getDepositInstruction E S R P a = Inr ins \<longleftrightarrow>
     (\<exists>d ra ma. depositData a = Inr d \<and>
        findAuthorityProgramAddress E P ''reserve_account'' = Inr ra \<and>
        findAuthorityProgramAddress E P ''mint_authority'' = Inr ma \<and>
        ins = \<lparr>keys =
                [\<lparr>pubkey = solidoInstanceId P, isSigner = False, isWritable = True\<rparr>,
                 \<lparr>pubkey = S, isSigner = True, isWritable = True\<rparr>,
                 \<lparr>pubkey = R, isSigner = False, isWritable = True\<rparr>,
                 \<lparr>pubkey = stSolMintAddress P, isSigner = False, isWritable = True\<rparr>,
                 \<lparr>pubkey = ra, isSigner = False, isWritable = True\<rparr>,
                 \<lparr>pubkey = ma, isSigner = False, isWritable = False\<rparr>,
                 \<lparr>pubkey = TOKEN_PROGRAM_ID, isSigner = False, isWritable = False\<rparr>,
                 \<lparr>pubkey = SystemProgram_programId, isSigner = False, isWritable = False\<rparr>],
               data = d, programId = solidoProgramId P\<rparr>)"
  unfolding getDepositInstruction_def by (auto split: sum.splits)

lemma find_reserve_E0:
  "findAuthorityProgramAddress E0 P0 ''reserve_account'' =
     Inr [2, 114, 101, 115, 101, 114, 118, 101, 95, 97, 99, 99, 111, 117, 110, 116, 255, 1, 80, 68, 65]"
  by (simp add: findAuthorityProgramAddress_def derive_def invalid_seeds_def E0_def P0_def
      search_accept candidate_def)

lemma find_mint_E0:
  "findAuthorityProgramAddress E0 P0 ''mint_authority'' =
     Inr [2, 109, 105, 110, 116, 95, 97, 117, 116, 104, 111, 114, 105, 116, 121, 255, 1, 80, 68, 65]"
  by (simp add: findAuthorityProgramAddress_def derive_def invalid_seeds_def E0_def P0_def
      search_accept candidate_def)

lemma find_reserve_invalid:
  "findAuthorityProgramAddress (E0\<lparr>max_seeds := 0\<rparr>) P0 ''reserve_account'' = Inl InvalidSeed"
  by (simp add: findAuthorityProgramAddress_def derive_def invalid_seeds_def E0_def)

lemma getDepositInstruction_E0:
  "getDepositInstruction E0 [7] [9] P0 \<lparr>lamports = 1000000\<rparr> =
     Inr \<lparr>keys =
            [\<lparr>pubkey = [2], isSigner = False, isWritable = True\<rparr>,
             \<lparr>pubkey = [7], isSigner = True, isWritable = True\<rparr>,
             \<lparr>pubkey = [9], isSigner = False, isWritable = True\<rparr>,
             \<lparr>pubkey = [3], isSigner = False, isWritable = True\<rparr>,
             \<lparr>pubkey = [2, 114, 101, 115, 101, 114, 118, 101, 95, 97, 99, 99, 111, 117, 110, 116,
                         255, 1, 80, 68, 65], isSigner = False, isWritable = True\<rparr>,
             \<lparr>pubkey = [2, 109, 105, 110, 116, 95, 97, 117, 116, 104, 111, 114, 105, 116, 121,
                         255, 1, 80, 68, 65], isSigner = False, isWritable = False\<rparr>,
             \<lparr>pubkey = TOKEN_PROGRAM_ID, isSigner = False, isWritable = False\<rparr>,
             \<lparr>pubkey = SystemProgram_programId, isSigner = False, isWritable = False\<rparr>],
           data = [1, 64, 66, 15, 0, 0, 0, 0, 0], programId = [1]\<rparr>"
  by (simp add: getDepositInstruction_def depositData_million find_reserve_E0 find_mint_E0)
     (simp add: P0_def)

subsection \<open>The claims\<close>

text \<open>
  Claim C1. A deposit of 1000000 base units, for any sender \<open>S\<close>, recipient \<open>R\<close> and
  program addresses \<open>P\<close> whose two derivations succeed: the payload is the nine bytes
  01 followed by 1000000 in eight little-endian bytes (40 42 0F 00 00 00 00 00), and the
  account list is, in this order, the instance (writable), the sender (signer, writable),
  the recipient (writable), the mint (writable), the derived reserve account (writable),
  the derived mint authority, the token program and the system program (read-only).
\<close>

theorem deposit_scenario:
  assumes "findAuthorityProgramAddress E P ''reserve_account'' = Inr reserve"
    and "findAuthorityProgramAddress E P ''mint_authority'' = Inr mint_authority"
  shows "getDepositInstruction E S R P \<lparr>lamports = 1000000\<rparr> =
     Inr \<lparr>keys =
            [\<lparr>pubkey = solidoInstanceId P, isSigner = False, isWritable = True\<rparr>,
             \<lparr>pubkey = S, isSigner = True, isWritable = True\<rparr>,
             \<lparr>pubkey = R, isSigner = False, isWritable = True\<rparr>,
             \<lparr>pubkey = stSolMintAddress P, isSigner = False, isWritable = True\<rparr>,
             \<lparr>pubkey = reserve, isSigner = False, isWritable = True\<rparr>,
             \<lparr>pubkey = mint_authority, isSigner = False, isWritable = False\<rparr>,
             \<lparr>pubkey = TOKEN_PROGRAM_ID, isSigner = False, isWritable = False\<rparr>,
             \<lparr>pubkey = SystemProgram_programId, isSigner = False, isWritable = False\<rparr>],
           data = [1, 64, 66, 15, 0, 0, 0, 0, 0],
           programId = solidoProgramId P\<rparr>"
  using assms by (simp add: getDepositInstruction_def depositData_million)

theorem deposit_scenario_witness:
  "data (projr (getDepositInstruction E0 [7] [9] P0 \<lparr>lamports = 1000000\<rparr>)) =
     [1, 64, 66, 15, 0, 0, 0, 0, 0] \<and>
   map pubkey (keys (projr (getDepositInstruction E0 [7] [9] P0 \<lparr>lamports = 1000000\<rparr>))) =
     [[2], [7], [9], [3],
      [2, 114, 101, 115, 101, 114, 118, 101, 95, 97, 99, 99, 111, 117, 110, 116, 255, 1, 80, 68, 65],
      [2, 109, 105, 110, 116, 95, 97, 117, 116, 104, 111, 114, 105, 116, 121, 255, 1, 80, 68, 65],
      TOKEN_PROGRAM_ID, SystemProgram_programId]"
  using deposit_scenario [OF find_reserve_E0 find_mint_E0, of "[7]" "[9]"]
  by (simp add: P0_def)

text \<open>
  Claim C2, as the code has it. An amount of 2^64 or more fails with RangeError, and so
  does every amount from 2^64 - 1024 on, which is 2^64 as a JavaScript number, and every
  negative amount; no value is truncated into the field. Every amount from 0 to
  2^64 - 1025 encodes, to the eight little-endian bytes of its value as a number. The
  boundary is therefore 2^64 - 1025 (accepted, as 2^64 - 2048) against 2^64 - 1024.
\<close>

theorem overflow_rejected:
  "(2 ^ 64 \<le> lamports a \<longrightarrow> depositData a = Inl RangeError)
 \<and> (2 ^ 64 - 1024 \<le> lamports a \<longrightarrow> depositData a = Inl RangeError)
 \<and> (lamports a < 0 \<longrightarrow> depositData a = Inl RangeError)
 \<and> (0 \<le> lamports a \<and> lamports a \<le> 2 ^ 64 - 1025 \<longrightarrow>
      (\<exists>field. depositData a = Inr (1 # field) \<and> length field = 8 \<and>
         le_value field = ToNumber (lamports a)))"
proof -
  have "2 ^ 64 - 1024 \<le> lamports a \<Longrightarrow> depositData a = Inl RangeError"
    by (rule depositData_overflow) (use ToNumber_overflow [of "lamports a"] in simp)
  moreover have "lamports a < 0 \<Longrightarrow> depositData a = Inl RangeError"
    by (rule depositData_overflow) (simp add: ToNumber_neg)
  moreover have "0 \<le> lamports a \<Longrightarrow> lamports a \<le> 2 ^ 64 - 1025 \<Longrightarrow>
      (\<exists>field. depositData a = Inr (1 # field) \<and> length field = 8 \<and>
         le_value field = ToNumber (lamports a))"
    using ToNumber_in_range [of "lamports a"] by (intro depositData_field) simp_all
  ultimately show ?thesis by simp
qed

theorem overflow_rejected_witness:
  "depositData \<lparr>lamports = 2 ^ 64\<rparr> = Inl RangeError
 \<and> depositData \<lparr>lamports = 2 ^ 64 - 1024\<rparr> = Inl RangeError
 \<and> depositData \<lparr>lamports = - 1\<rparr> = Inl RangeError
 \<and> (\<exists>field. depositData \<lparr>lamports = 2 ^ 64 - 1025\<rparr> = Inr (1 # field) \<and> length field = 8 \<and>
       le_value field = ToNumber (2 ^ 64 - 1025))"
  using overflow_rejected [of "\<lparr>lamports = 2 ^ 64\<rparr>"]
    overflow_rejected [of "\<lparr>lamports = 2 ^ 64 - 1024\<rparr>"]
    overflow_rejected [of "\<lparr>lamports = - 1\<rparr>"]
    overflow_rejected [of "\<lparr>lamports = 2 ^ 64 - 1025\<rparr>"]
  by simp

text \<open>
  The boundary the claim names, 2^64 - 1, is not accepted: no JavaScript number has that
  value, the nearest one is 2^64, and its high half does not fit 32 bits.
\<close>

theorem max_u64_rejected_counterexample:
  "depositData \<lparr>lamports = 2 ^ 64 - 1\<rparr> = Inl RangeError"
  by (rule depositData_overflow) (use ToNumber_2_64_m1 in simp)

text \<open>
  Claim C3. Whenever the encoding and the two derivations succeed, for whatever sender,
  recipient, program addresses and derived addresses, \<open>getDepositInstruction\<close> returns
  an instruction whose accounts carry the signer and writable flags of the fixed table
  below, in the fixed order of roles: instance, sender, recipient, mint, derived reserve
  account, derived mint authority, token program, system program. So any two calls that
  succeed in their components return lists with the same flags at the same positions;
  and no returned instruction has any other flags.
\<close>

theorem account_order_stable:
  assumes "depositData a = Inr d"
    and "findAuthorityProgramAddress E P ''reserve_account'' = Inr ra"
    and "findAuthorityProgramAddress E P ''mint_authority'' = Inr ma"
    and "depositData a' = Inr d'"
    and "findAuthorityProgramAddress E' P' ''reserve_account'' = Inr ra'"
    and "findAuthorityProgramAddress E' P' ''mint_authority'' = Inr ma'"
  shows "\<exists>ins ins'.
           getDepositInstruction E S R P a = Inr ins
         \<and> getDepositInstruction E' S' R' P' a' = Inr ins'
         \<and> map (\<lambda>k. (isSigner k, isWritable k)) (keys ins) =
             [(False, True), (True, True), (False, True), (False, True),
              (False, True), (False, False), (False, False), (False, False)]
         \<and> map (\<lambda>k. (isSigner k, isWritable k)) (keys ins') =
             map (\<lambda>k. (isSigner k, isWritable k)) (keys ins)
         \<and> map pubkey (keys ins) =
             [solidoInstanceId P, S, R, stSolMintAddress P, ra, ma,
              TOKEN_PROGRAM_ID, SystemProgram_programId]
         \<and> map pubkey (keys ins') =
             [solidoInstanceId P', S', R', stSolMintAddress P', ra', ma',
              TOKEN_PROGRAM_ID, SystemProgram_programId]
         \<and> (\<forall>i. getDepositInstruction E S R P a = Inr i \<longrightarrow>
               map (\<lambda>k. (isSigner k, isWritable k)) (keys i) =
                 [(False, True), (True, True), (False, True), (False, True),
                  (False, True), (False, False), (False, False), (False, False)])"
  using assms by (simp add: getDepositInstruction_def)

theorem account_order_stable_witness:
  "(\<exists>ins. getDepositInstruction E0 [7] [9] P0 \<lparr>lamports = 1000000\<rparr> = Inr ins
      \<and> map (\<lambda>k. (isSigner k, isWritable k)) (keys ins) =
          [(False, True), (True, True), (False, True), (False, True),
           (False, True), (False, False), (False, False), (False, False)]
      \<and> map pubkey (keys ins) =
          [[2], [7], [9], [3],
           [2, 114, 101, 115, 101, 114, 118, 101, 95, 97, 99, 99, 111, 117, 110, 116,
            255, 1, 80, 68, 65],
           [2, 109, 105, 110, 116, 95, 97, 117, 116, 104, 111, 114, 105, 116, 121,
            255, 1, 80, 68, 65],
           TOKEN_PROGRAM_ID, SystemProgram_programId])
 \<and> (\<exists>ins'. getDepositInstruction E0 [8, 8] [] P0 \<lparr>lamports = 5\<rparr> = Inr ins'
      \<and> map (\<lambda>k. (isSigner k, isWritable k)) (keys ins') =
          [(False, True), (True, True), (False, True), (False, True),
           (False, True), (False, False), (False, False), (False, False)])"
proof -
  have p: "solidoInstanceId P0 = [2]" "stSolMintAddress P0 = [3]" by (simp_all add: P0_def)
  have a: "getDepositInstruction E0 [7] [9] P0 \<lparr>lamports = 1000000\<rparr> =
      Inr (projr (getDepositInstruction E0 [7] [9] P0 \<lparr>lamports = 1000000\<rparr>))"
    and b: "getDepositInstruction E0 [8, 8] [] P0 \<lparr>lamports = 5\<rparr> =
      Inr (projr (getDepositInstruction E0 [8, 8] [] P0 \<lparr>lamports = 5\<rparr>))"
    using account_order_stable [OF depositData_million find_reserve_E0 find_mint_E0
      depositData_five find_reserve_E0 find_mint_E0, of "[7]" "[9]" "[8, 8]" "[]"]
    by auto
  show ?thesis
    apply (subst a, subst b)
    apply (simp only: sum.inject ex_simps simp_thms)
    using account_order_stable [OF depositData_million find_reserve_E0 find_mint_E0
      depositData_five find_reserve_E0 find_mint_E0, of "[7]" "[9]" "[8, 8]" "[]"]
    apply (subst (asm) a, subst (asm) b)
    apply (simp only: sum.inject ex_simps simp_thms p)
    done
qed

text \<open>
  Claim C4. The length of the encoded payload does not depend on the amount: any two
  amounts that encode give buffers of the same length, 9 = 1 + 8, the span of the layout.
\<close>

theorem payload_length_fixed:
  assumes "depositData a = Inr d" and "depositData a' = Inr d'"
  shows "length d = length d' \<and> length d = 9 \<and> Structure_span dataLayout = 9"
  using assms by (simp add: depositData_length Structure_span_dataLayout)

theorem payload_length_fixed_witness:
  "length [1, 64, 66, 15, 0, 0, 0, 0, 0 :: byte] = length [1, 5, 0, 0, 0, 0, 0, 0, 0 :: byte] \<and>
   depositData \<lparr>lamports = 1000000\<rparr> = Inr [1, 64, 66, 15, 0, 0, 0, 0, 0] \<and>
   depositData \<lparr>lamports = 5\<rparr> = Inr [1, 5, 0, 0, 0, 0, 0, 0, 0]"
  using payload_length_fixed [OF depositData_million depositData_five]
  by (simp add: depositData_million depositData_five)

text \<open>
  Claim C6. Assembly is all or nothing. If the encoding fails, or the encoding succeeds and
  a derivation fails, \<open>getDepositInstruction\<close> fails with that very error; and whenever
  it returns an instruction, the payload is the complete encoding (nine bytes) and all
  eight accounts are there, the derived ones being what the derivations returned.
\<close>

theorem all_or_nothing:
  "(depositData a = Inl e \<longrightarrow> getDepositInstruction E S R P a = Inl e)
 \<and> (depositData a = Inr d \<and> findAuthorityProgramAddress E P ''reserve_account'' = Inl e \<longrightarrow>
      getDepositInstruction E S R P a = Inl e)
 \<and> (depositData a = Inr d \<and> findAuthorityProgramAddress E P ''reserve_account'' = Inr ra \<and>
      findAuthorityProgramAddress E P ''mint_authority'' = Inl e \<longrightarrow>
      getDepositInstruction E S R P a = Inl e)
 \<and> (getDepositInstruction E S R P a = Inr ins \<longrightarrow>
      depositData a = Inr (data ins) \<and> length (data ins) = 9 \<and> length (keys ins) = 8 \<and>
      findAuthorityProgramAddress E P ''reserve_account'' = Inr (pubkey (keys ins ! 4)) \<and>
      findAuthorityProgramAddress E P ''mint_authority'' = Inr (pubkey (keys ins ! 5)))"
proof -
  have "getDepositInstruction E S R P a = Inr ins \<Longrightarrow> length (data ins) = 9"
    unfolding getDepositInstruction_Inr by (auto simp: depositData_length)
  moreover have "getDepositInstruction E S R P a = Inr ins \<Longrightarrow>
      depositData a = Inr (data ins) \<and> length (keys ins) = 8 \<and>
      findAuthorityProgramAddress E P ''reserve_account'' = Inr (pubkey (keys ins ! 4)) \<and>
      findAuthorityProgramAddress E P ''mint_authority'' = Inr (pubkey (keys ins ! 5))"
    unfolding getDepositInstruction_Inr by auto
  ultimately show ?thesis
    by (auto simp: getDepositInstruction_def)
qed

theorem all_or_nothing_witness:
  "getDepositInstruction E0 [7] [9] P0 \<lparr>lamports = - 1\<rparr> = Inl RangeError
 \<and> getDepositInstruction (E0\<lparr>max_seeds := 0\<rparr>) [7] [9] P0 \<lparr>lamports = 1000000\<rparr> = Inl InvalidSeed
 \<and> length (data (projr (getDepositInstruction E0 [7] [9] P0 \<lparr>lamports = 1000000\<rparr>))) = 9"
  using all_or_nothing [where a = "\<lparr>lamports = - 1\<rparr>" and e = RangeError and E = E0
      and S = "[7]" and R = "[9]" and P = P0]
    all_or_nothing [where a = "\<lparr>lamports = 1000000\<rparr>" and e = InvalidSeed
      and E = "E0\<lparr>max_seeds := 0\<rparr>" and S = "[7]" and R = "[9]" and P = P0
      and d = "[1, 64, 66, 15, 0, 0, 0, 0, 0]"]
    all_or_nothing [where a = "\<lparr>lamports = 1000000\<rparr>" and E = E0 and S = "[7]" and R = "[9]"
      and P = P0 and ins = "projr (getDepositInstruction E0 [7] [9] P0 \<lparr>lamports = 1000000\<rparr>)"]
  by (simp add: depositData_minus_one depositData_million find_reserve_invalid
      getDepositInstruction_E0)

text \<open>
  Claim C7, as the code has it. For the deposit kind and every amount from 0 to 2^64 - 1
  that is a JavaScript number (every amount below 2^53 is one), decoding the encoding
  gives back the kind and the amount.
\<close>

theorem round_trip:
  assumes "0 \<le> v" and "v < 2 ^ 64" and "ToNumber v = v"
  shows "\<exists>b. encode Deposit v = Inr b \<and> decode b = Inr (Deposit, v)"
proof -
  have "0 \<le> ToNumber (lamports \<lparr>lamports = v\<rparr>)" "ToNumber (lamports \<lparr>lamports = v\<rparr>) < 2 ^ 64"
    using assms by simp_all
  then obtain field where f: "depositData \<lparr>lamports = v\<rparr> = Inr (1 # field)" "length field = 8"
      "le_value field = ToNumber (lamports \<lparr>lamports = v\<rparr>)"
    using depositData_field by blast
  then have "decode (1 # field) = Inr (Deposit, v)"
    using assms by (simp add: decode_def)
  with f show ?thesis by (auto simp: encode_def)
qed

theorem round_trip_witness:
  "\<exists>b. encode Deposit 1000000 = Inr b \<and> decode b = Inr (Deposit, 1000000)"
proof -
  have "ToNumber 1000000 = 1000000" by (rule ToNumber_safe) simp_all
  then show ?thesis using round_trip [of 1000000] by simp
qed

text \<open>
  For the 64-bit amount 2^53 + 1 the round trip fails: the layout takes it as the number
  2^53 and encodes that.
\<close>

theorem round_trip_counterexample:
  "encode Deposit (2 ^ 53 + 1) = Inr [1, 0, 0, 0, 0, 0, 0, 32, 0]
 \<and> decode [1, 0, 0, 0, 0, 0, 0, 32, 0] = Inr (Deposit, 2 ^ 53)
 \<and> decode [1, 0, 0, 0, 0, 0, 0, 32, 0] \<noteq> Inr (Deposit, 2 ^ 53 + 1)"
  using depositData_2_53_p1 by (simp add: encode_def decode_def)

text \<open>
  Claim C8. The address of every successful derivation is not on the curve: it is the
  candidate of the returned bump, the bump is at most 255, and the candidates of all
  higher bumps up to 255 are on the curve, so it is the first one the search from 255
  downwards could accept.
\<close>

theorem derived_off_curve:
  assumes "derive E program_id seeds = Inr (address, bump)"
  shows "\<not> isOnCurve E address \<and> address = candidate E program_id seeds bump \<and> bump \<le> 255 \<and>
     (\<forall>b. bump < b \<and> b \<le> 255 \<longrightarrow> isOnCurve E (candidate E program_id seeds b))"
proof -
  from assms have "search E program_id seeds 255 = Inr (address, bump)"
    by (simp add: derive_def split: if_splits)
  from search_Inr [OF this] show ?thesis by blast
qed

theorem derived_off_curve_witness:
  "derive E0 [1] [] = Inr ([253, 1, 80, 68, 65], 253) \<and> \<not> isOnCurve E0 [253, 1, 80, 68, 65] \<and>
   isOnCurve E0 (candidate E0 [1] [] 254) \<and> isOnCurve E0 (candidate E0 [1] [] 255)"
proof -
  have "(253::nat) < 254 \<and> (254::nat) \<le> 255" "(253::nat) < 255 \<and> (255::nat) \<le> 255"
    by simp_all
  with derived_off_curve [OF derive_E0] derive_E0 show ?thesis by blast
qed

text \<open>
  Claim C9. Every deposit instruction has eight accounts of which exactly one is a signer:
  the sender the caller supplied, second in the list. The instance, the recipient, the
  mint, the derived addresses and the two programs are never marked as signers.
\<close>

theorem single_signer:
  assumes "getDepositInstruction E S R P a = Inr ins"
  shows "length (keys ins) = 8
       \<and> filter isSigner (keys ins) = [\<lparr>pubkey = S, isSigner = True, isWritable = True\<rparr>]
       \<and> keys ins ! 1 = \<lparr>pubkey = S, isSigner = True, isWritable = True\<rparr>
       \<and> map isSigner (keys ins) = [False, True, False, False, False, False, False, False]"
  using assms unfolding getDepositInstruction_Inr by auto

theorem single_signer_witness:
  "filter isSigner (keys (projr (getDepositInstruction E0 [7] [9] P0 \<lparr>lamports = 1000000\<rparr>))) =
     [\<lparr>pubkey = [7], isSigner = True, isWritable = True\<rparr>]"
  using single_signer [OF getDepositInstruction_E0] by (simp add: getDepositInstruction_E0)

text \<open>
  Claim C10. For every amount from 0 to 2^53 - 1 the payload is the byte 1 followed by
  eight bytes whose little-endian value is exactly the amount, also in the instruction
  \<open>getDepositInstruction\<close> returns. Beyond the safe integers this is not guaranteed: the
  amount 2^53 + 1 is encoded as 2^53.
\<close>

theorem amount_exact_in_safe_range:
  "(0 \<le> lamports a \<and> lamports a \<le> 2 ^ 53 - 1 \<longrightarrow>
      (\<exists>field. depositData a = Inr (1 # field) \<and> length field = 8 \<and>
         le_value field = lamports a \<and>
         (\<forall>ins. getDepositInstruction E S R P a = Inr ins \<longrightarrow> data ins = 1 # field)))
 \<and> depositData \<lparr>lamports = 2 ^ 53 + 1\<rparr> = Inr [1, 0, 0, 0, 0, 0, 0, 32, 0]
 \<and> le_value [0, 0, 0, 0, 0, 0, 32, 0] = 2 ^ 53"
proof -
  have "\<exists>field. depositData a = Inr (1 # field) \<and> length field = 8 \<and>
         le_value field = lamports a \<and>
         (\<forall>ins. getDepositInstruction E S R P a = Inr ins \<longrightarrow> data ins = 1 # field)"
    if a: "0 \<le> lamports a" "lamports a \<le> 2 ^ 53 - 1"
  proof -
    have n: "ToNumber (lamports a) = lamports a" using a by (intro ToNumber_safe) simp_all
    have "0 \<le> ToNumber (lamports a)" "ToNumber (lamports a) < 2 ^ 64"
      using a unfolding n by simp_all
    then obtain field where f: "depositData a = Inr (1 # field)" "length field = 8"
        "le_value field = ToNumber (lamports a)"
      using depositData_field by blast
    have "data ins = 1 # field" if "getDepositInstruction E S R P a = Inr ins" for ins
      using that f(1) unfolding getDepositInstruction_Inr by auto
    with f n show ?thesis by auto
  qed
  then show ?thesis using depositData_2_53_p1 by simp
qed

theorem amount_exact_in_safe_range_witness:
  "\<exists>field. depositData \<lparr>lamports = 2 ^ 53 - 1\<rparr> = Inr (1 # field) \<and> length field = 8 \<and>
     le_value field = 2 ^ 53 - 1"
  using amount_exact_in_safe_range [of "\<lparr>lamports = 2 ^ 53 - 1\<rparr>" E0 "[]" "[]" P0]
  by auto

end
